theory Spec2Isabelle
  imports Main
begin

section \<open>The web panel adapter of \<^verbatim>\<open>webPanel.ts\<close>\<close>

text \<open>
  The class \<^verbatim>\<open>WebPanel\<close> wraps one panel of the host IDE. Its collaborators are the
  host (\<^verbatim>\<open>window.createWebviewPanel\<close>, the panel and its webview), the file system
  (\<^verbatim>\<open>fs.pathExists\<close>), the disposable registry and the listener supplied by the caller.
  None of them is part of the file. The embedding records every call the class makes on
  them, in order, and takes what they answer as parameters (the record \<open>host\<close>). As the
  specification's error-handling section says, host calls are taken not to fail.

  JavaScript strings are modelled as \<open>string\<close>: a character stands for a code unit
  below 256 (ASCII and the Latin-1 supplement).
\<close>

subsection \<open>String helpers of the JavaScript runtime\<close>

definition newline :: string where
  "newline = [CHR 0x0A]"

text \<open>\<^verbatim>\<open>xs.join(sep)\<close>\<close>

fun join :: "string \<Rightarrow> string list \<Rightarrow> string" where
  "join sep [] = []"
| "join sep [x] = x"
| "join sep (x # y # ys) = x @ sep @ join sep (y # ys)"

text \<open>
  \<^verbatim>\<open>s.replace(pat, rep)\<close> with a string pattern: only the first occurrence of \<open>pat\<close> is
  replaced (\<open>rep\<close> holds no \<^verbatim>\<open>$\<close> pattern where the class calls it).
\<close>

fun replace :: "string \<Rightarrow> string \<Rightarrow> string \<Rightarrow> string" where
  "replace pat rep [] = (if pat = [] then rep else [])"
| "replace pat rep (c # cs) =
     (if take (length pat) (c # cs) = pat then rep @ drop (length pat) (c # cs)
      else c # replace pat rep cs)"

text \<open>\<^verbatim>\<open>s.replace(/\\/g, '/')\<close>: every backslash becomes a slash.\<close>

definition replace_backslashes :: "string \<Rightarrow> string" where
  "replace_backslashes s = map (\<lambda>c. if c = CHR 0x5C then CHR ''/'' else c) s"

text \<open>
  \<^verbatim>\<open>s.toLowerCase()\<close> on every character: the capital letters are A to Z and the code
  units C0 to D6 and D8 to DE (the accented capitals; D7 is the multiplication sign), and
  the small letter of each lies 32 above it. Every other character below 256 stays.
\<close>

definition lower_char :: "char \<Rightarrow> char" where
  "lower_char c =
     (case map_of
        (zip (''ABCDEFGHIJKLMNOPQRSTUVWXYZ'' @
              [CHR 0xC0, CHR 0xC1, CHR 0xC2, CHR 0xC3, CHR 0xC4, CHR 0xC5, CHR 0xC6, CHR 0xC7,
               CHR 0xC8, CHR 0xC9, CHR 0xCA, CHR 0xCB, CHR 0xCC, CHR 0xCD, CHR 0xCE, CHR 0xCF,
               CHR 0xD0, CHR 0xD1, CHR 0xD2, CHR 0xD3, CHR 0xD4, CHR 0xD5, CHR 0xD6,
               CHR 0xD8, CHR 0xD9, CHR 0xDA, CHR 0xDB, CHR 0xDC, CHR 0xDD, CHR 0xDE])
             (''abcdefghijklmnopqrstuvwxyz'' @
              [CHR 0xE0, CHR 0xE1, CHR 0xE2, CHR 0xE3, CHR 0xE4, CHR 0xE5, CHR 0xE6, CHR 0xE7,
               CHR 0xE8, CHR 0xE9, CHR 0xEA, CHR 0xEB, CHR 0xEC, CHR 0xED, CHR 0xEE, CHR 0xEF,
               CHR 0xF0, CHR 0xF1, CHR 0xF2, CHR 0xF3, CHR 0xF4, CHR 0xF5, CHR 0xF6,
               CHR 0xF8, CHR 0xF9, CHR 0xFA, CHR 0xFB, CHR 0xFC, CHR 0xFD, CHR 0xFE])) c of
        Some l \<Rightarrow> l
      | None \<Rightarrow> c)"

definition toLowerCase :: "string \<Rightarrow> string" where
  "toLowerCase s = map lower_char s"

text \<open>\<^verbatim>\<open>s.substr(start)\<close> with a start that is not negative.\<close>

definition substr :: "string \<Rightarrow> nat \<Rightarrow> string" where
  "substr s start = drop start s"

text \<open>A number inside a template literal: its decimal digits.\<close>

function number_text :: "nat \<Rightarrow> string" where
  "number_text n =
     (if n < 10 then [''0123456789'' ! n]
      else number_text (n div 10) @ [''0123456789'' ! (n mod 10)])"
  by pat_completeness auto
termination
  by (relation "measure (\<lambda>n. n)") auto

subsection \<open>Data\<close>

type_synonym ViewColumn = int

text \<open>\<^verbatim>\<open>WebPanelMessage\<close>: a tag and a payload, relayed as they are.\<close>

datatype WebPanelMessage = WebPanelMessage (msg_type: string) (msg_payload: string)

text \<open>\<^verbatim>\<open>IWebPanelOptions\<close>. The listener is the caller's object: the calls made on it
  are recorded among the calls below.\<close>

record IWebPanelOptions =
  title :: string
  viewColumn :: ViewColumn
  rootPath :: string
  scripts :: "string list"
  cwd :: string
  startHttpServer :: bool

text \<open>The host's panel object, as far as the class reads or writes it.\<close>

record WebviewPanel =
  panel_title :: string
  html :: string
  panel_viewColumn :: "ViewColumn option"
  visible :: bool
  active :: bool

text \<open>The last argument of \<^verbatim>\<open>window.createWebviewPanel\<close>.\<close>

record WebviewOptions =
  enableScripts :: bool
  retainContextWhenHidden :: bool
  localResourceRoots :: "string list"
  portMapping :: "(nat \<times> nat) list option"

text \<open>The three events of the host the class subscribes to.\<close>

datatype subscription = OnDidDispose | OnDidReceiveMessage | OnDidChangeViewState

text \<open>Every call the class makes on a collaborator.\<close>

datatype call =
    CreateWebviewPanel string string "ViewColumn \<times> bool" WebviewOptions
  | PathExists string
  | SetHtml string
  | SetTitle string
  | Reveal "ViewColumn option" bool
  | Dispose
  | PostMessage WebPanelMessage
  | RegistryPush subscription
  | ListenerDispose
  | ListenerOnMessage string string
  | ListenerOnChangeViewState

datatype error = TypeError

datatype promise = Pending | Resolved | Rejected error

text \<open>
  What the collaborators answer: the file system, the URI of a local file as the webview
  sees it (\<^verbatim>\<open>webView.asWebviewUri(Uri.file(p))\<close>, as text), the panel object a creation
  returns, the theme name constant, the localized format string for a panel that cannot
  load, the \<^verbatim>\<open>format\<close> extension of strings and \<^verbatim>\<open>encodeURIComponent\<close>.
\<close>

record host =
  pathExists :: "string \<Rightarrow> bool"
  asWebviewUri :: "string \<Rightarrow> string"
  createWebviewPanel :: "string \<Rightarrow> string \<Rightarrow> ViewColumn \<times> bool \<Rightarrow> WebviewOptions \<Rightarrow> WebviewPanel"
  GeneratedThemeName :: string
  badWebPanelFormatString :: string
  format :: "string \<Rightarrow> string \<Rightarrow> string"
  encodeURIComponent :: "string \<Rightarrow> string"

text \<open>
  The object and the run-time around it. The first six fields are the fields of the
  class. \<open>awaiting\<close> holds the calls of \<^verbatim>\<open>show\<close> suspended at their \<^verbatim>\<open>await\<close>, oldest
  first, each with its argument; \<open>registered\<close> the handlers subscribed on the host panel;
  \<open>disposed\<close> whether the host has reported the panel's disposal; \<open>calls\<close> the calls made
  so far, oldest first; \<open>raised\<close> the errors that reached a caller.
\<close>

record state =
  panel :: "WebviewPanel option"
  loadPromise :: promise
  ident :: string
  port :: "nat option"
  token :: "string option"
  options :: IWebPanelOptions
  awaiting :: "bool list"
  registered :: "subscription list"
  disposed :: bool
  calls :: "call list"
  raised :: "error list"

definition RemappedPort :: nat where
  "RemappedPort = 9890"

text \<open>Truthiness of \<^verbatim>\<open>this.port\<close>, a number or \<^verbatim>\<open>undefined\<close>.\<close>

definition truthy :: "nat option \<Rightarrow> bool" where
  "truthy p = (case p of None \<Rightarrow> False | Some n \<Rightarrow> n \<noteq> 0)"

text \<open>\<^verbatim>\<open>${this.token}\<close> inside a template literal.\<close>

definition token_text :: "string option \<Rightarrow> string" where
  "token_text t = (case t of None \<Rightarrow> ''undefined'' | Some s \<Rightarrow> s)"

subsection \<open>The two HTML generators\<close>

text \<open>
  Both are methods of the class. Each takes here the fields of \<^verbatim>\<open>this\<close> it reads: the
  options for the local page; the identifier, the token and the options for the server
  page. The webview argument is used for \<^verbatim>\<open>asWebviewUri\<close> only, which the host answers.
\<close>

definition generateLocalReactHtml :: "host \<Rightarrow> IWebPanelOptions \<Rightarrow> string" where
  \<open>generateLocalReactHtml h opts =
    (let uriBase = asWebviewUri h (rootPath opts);
         uris = map (asWebviewUri h) (scripts opts)
     in concat [
        ''<!doctype html>'', newline,
        ''        <html lang="en">'', newline,
        ''            <head>'', newline,
        ''                <meta charset="utf-8">'', newline,
        ''                <meta name="viewport" content="width=device-width,initial-scale=1,shrink-to-fit=no">'', newline,
        ''                <meta http-equiv="Content-Security-Policy" content="img-src 'self' data: https: http: blob:; default-src 'unsafe-inline' 'unsafe-eval' vscode-resource: data: https: http:;">'', newline,
        ''                <meta name="theme-color" content="#000000">'', newline,
        ''                <meta name="theme" content="'', GeneratedThemeName h, ''"/>'', newline,
        ''                <title>React App</title>'', newline,
        ''                <base href="'', uriBase, ''"/>'', newline,
        ''            </head>'', newline,
        ''            <body>'', newline,
        ''                <noscript>You need to enable JavaScript to run this app.</noscript>'', newline,
        ''                <div id="root"></div>'', newline,
        ''                <script type="text/javascript">'', newline,
        ''                    function resolvePath(relativePath) {'', newline,
        ''                        if (relativePath && relativePath[0] == '.' && relativePath[1] != '.') {'', newline,
        ''                            return "'', uriBase, ''" + relativePath.substring(1);'', newline,
        ''                        }'', newline,
        newline,
        ''                        return "'', uriBase, ''" + relativePath;'', newline,
        ''                    }'', newline,
        ''                </script>'', newline,
        ''                '',
        join newline
          (map (\<lambda>uri. ''<script type="text/javascript" src="'' @ uri @ ''"></script>'') uris),
        newline,
        ''            </body>'', newline,
        ''        </html>''])\<close>

definition generateServerReactHtml ::
  "host \<Rightarrow> string \<Rightarrow> string option \<Rightarrow> IWebPanelOptions \<Rightarrow> string" where
  \<open>generateServerReactHtml h this_id this_token opts =
    (let uriBase = asWebviewUri h (rootPath opts);
         relativeScripts = map (\<lambda>x. ''.'' @ substr x (length (rootPath opts))) (scripts opts);
         encoded = map (\<lambda>x. encodeURIComponent h (replace_backslashes x)) relativeScripts
     in concat [
        ''<!doctype html>'', newline,
        ''        <html lang="en">'', newline,
        ''            <head>'', newline,
        ''                <meta charset="utf-8">'', newline,
        ''                <meta name="viewport" content="width=device-width,initial-scale=1,shrink-to-fit=no">'', newline,
        ''                <meta http-equiv="Content-Security-Policy" content="img-src 'self' data: https: http: blob:; default-src 'unsafe-inline' 'unsafe-eval' vscode-resource: data: https: http:;">'', newline,
        ''                <meta name="theme-color" content="#000000">'', newline,
        ''                <meta name="theme" content="'', GeneratedThemeName h, ''"/>'', newline,
        ''                <title>React App</title>'', newline,
        ''                <base href="'', uriBase, ''"/>'', newline,
        ''            </head>'', newline,
        ''            <body>'', newline,
        ''                <script type="text/javascript">'', newline,
        ''                    const vscodeApi = acquireVsCodeApi ? acquireVsCodeApi() : undefined;'', newline,
        ''                    window.addEventListener('message', (ev) => {'', newline,
        ''                        const isFromFrame = ev.data && ev.data.command === 'onmessage';'', newline,
        ''                        if (isFromFrame && vscodeApi) {'', newline,
        ''                            window.console.log('posting to vscode');'', newline,
        ''                            window.console.log(JSON.stringify(ev.data.data));'', newline,
        ''                            vscodeApi.postMessage(ev.data.data);'', newline,
        ''                        } else if (!isFromFrame) {'', newline,
        ''                            window.console.log('posting to frame');'', newline,
        ''                            window.console.log(ev.data.type);'', newline,
        ''                            const hostFrame = document.getElementById('hostframe');'', newline,
        ''                            if (hostFrame) {'', newline,
        ''                                hostFrame.contentWindow.postMessage(ev.data, '*');'', newline,
        ''                            }'', newline,
        ''                        }'', newline,
        ''                    });'', newline,
        ''                    //# sourceURL=listener.js'', newline,
        ''                </script>'', newline,
        ''                <iframe id='hostframe' src="http://localhost:'', number_text RemappedPort,
        ''/'', this_id, ''?scripts='', join ''%'' encoded, ''&cwd='', cwd opts,
        ''&rootPath='', rootPath opts, ''&token='', token_text this_token,
        ''" frameborder="0" style="left: 0px; display: block; margin: 0px; overflow: hidden; position: absolute; width: 100%; height: 100%; visibility: visible;"/>'', newline,
        ''            </body>'', newline,
        ''        </html>''])\<close>

subsection \<open>Construction and the load step\<close>

text \<open>
  \<^verbatim>\<open>load\<close> is an \<^verbatim>\<open>async\<close> method with one \<^verbatim>\<open>await\<close>. \<open>load\<close> is the part that runs
  inside the constructor: the test of \<^verbatim>\<open>this.panel\<close> and the start of one existence check
  per script, after which the method is suspended and its promise is pending. Without a
  panel the method returns at once and its promise is resolved.
\<close>

definition load :: "state \<Rightarrow> state" where
  "load s =
     (case panel s of
        None \<Rightarrow> s\<lparr>loadPromise := Resolved\<rparr>
      | Some p \<Rightarrow>
          s\<lparr>loadPromise := Pending,
            calls := calls s @ map PathExists (scripts (options s))\<rparr>)"

text \<open>
  \<open>load_resume\<close> is the rest of \<^verbatim>\<open>load\<close>, run when the existence checks have settled.
  The source reads \<^verbatim>\<open>this.panel.webview\<close> here without a second test of \<^verbatim>\<open>this.panel\<close>:
  on an undefined reference that is a \<^verbatim>\<open>TypeError\<close>, which rejects the promise.
\<close>

definition load_resume :: "host \<Rightarrow> state \<Rightarrow> state" where
  "load_resume h s =
     (let localFilesExist = map (pathExists h) (scripts (options s)) in
      if list_all (\<lambda>exists. exists = True) localFilesExist then
        (case panel s of
           None \<Rightarrow> s\<lparr>loadPromise := Rejected TypeError\<rparr>
         | Some p \<Rightarrow>
             (let page =
                    (if startHttpServer (options s)
                     then generateServerReactHtml h (ident s) (token s) (options s)
                     else generateLocalReactHtml h (options s))
              in s\<lparr>panel := Some (p\<lparr>html := page\<rparr>),
                    registered := registered s @
                      [OnDidDispose, OnDidReceiveMessage, OnDidChangeViewState],
                    calls := calls s @
                      [SetHtml page, RegistryPush OnDidDispose, RegistryPush OnDidReceiveMessage,
                       RegistryPush OnDidChangeViewState, ListenerOnChangeViewState],
                    loadPromise := Resolved\<rparr>))
      else
        (case panel s of
           None \<Rightarrow> s\<lparr>loadPromise := Rejected TypeError\<rparr>
         | Some p \<Rightarrow>
             (let badPanelString = badWebPanelFormatString h;
                  page = format h badPanelString (join '', '' (scripts (options s)))
              in s\<lparr>panel := Some (p\<lparr>html := page\<rparr>),
                    calls := calls s @ [SetHtml page],
                    loadPromise := Resolved\<rparr>)))"

text \<open>The view type handed to the host: \<^verbatim>\<open>options.title.toLowerCase().replace(' ', '')\<close>.\<close>

definition viewType :: "IWebPanelOptions \<Rightarrow> string" where
  "viewType opts = replace '' '' [] (toLowerCase (title opts))"

text \<open>The constructor; \<open>uuid\<close> is the identifier \<^verbatim>\<open>uuid()\<close> drew.\<close>

definition constructor ::
  "host \<Rightarrow> string \<Rightarrow> nat option \<Rightarrow> string option \<Rightarrow> IWebPanelOptions \<Rightarrow> state" where
  "constructor h uuid prt tok opts =
     (let showOptions = (viewColumn opts, True);
          webviewOptions =
            \<lparr>enableScripts = True, retainContextWhenHidden = True,
             localResourceRoots = [rootPath opts],
             portMapping =
               (case prt of
                  None \<Rightarrow> None
                | Some n \<Rightarrow> if n \<noteq> 0 then Some [(RemappedPort, n)] else None)\<rparr>;
          created = createWebviewPanel h (viewType opts) (title opts) showOptions webviewOptions
      in load
           \<lparr>panel = Some created, loadPromise = Pending, ident = uuid, port = prt, token = tok,
            options = opts, awaiting = [], registered = [], disposed = False,
            calls = [CreateWebviewPanel (viewType opts) (title opts) showOptions webviewOptions],
            raised = []\<rparr>)"

subsection \<open>The public operations\<close>

text \<open>
  \<^verbatim>\<open>show\<close> is \<^verbatim>\<open>async\<close>: the call itself only suspends at \<^verbatim>\<open>await this.loadPromise\<close>
  (\<open>show_call\<close>). \<open>show_resume\<close> is the rest of the oldest suspended call; it can run
  only when the promise has settled, and a rejected promise throws to the caller.
\<close>

definition show_call :: "bool \<Rightarrow> state \<Rightarrow> state" where
  "show_call preserveFocus s = s\<lparr>awaiting := awaiting s @ [preserveFocus]\<rparr>"

definition show_resume :: "state \<Rightarrow> state" where
  "show_resume s =
     (case awaiting s of
        [] \<Rightarrow> s
      | preserveFocus # rest \<Rightarrow>
          (case loadPromise s of
             Pending \<Rightarrow> s
           | Rejected e \<Rightarrow> s\<lparr>awaiting := rest, raised := raised s @ [e]\<rparr>
           | Resolved \<Rightarrow>
               (case panel s of
                  Some p \<Rightarrow>
                    s\<lparr>awaiting := rest,
                      calls := calls s @ [Reveal (panel_viewColumn p) preserveFocus]\<rparr>
                | None \<Rightarrow> s\<lparr>awaiting := rest\<rparr>)))"

definition updateCwd :: "string \<Rightarrow> state \<Rightarrow> state" where
  "updateCwd new_cwd s = (if startHttpServer (options s) \<and> truthy (port s) then s else s)"

definition close :: "state \<Rightarrow> state" where
  "close s = (case panel s of Some p \<Rightarrow> s\<lparr>calls := calls s @ [Dispose]\<rparr> | None \<Rightarrow> s)"

definition isVisible :: "state \<Rightarrow> bool" where
  "isVisible s = (case panel s of Some p \<Rightarrow> visible p | None \<Rightarrow> False)"

definition isActive :: "state \<Rightarrow> bool" where
  "isActive s = (case panel s of Some p \<Rightarrow> active p | None \<Rightarrow> False)"

text \<open>The webview of a host panel is always there, so the second test of
  \<^verbatim>\<open>this.panel && this.panel.webview\<close> holds whenever the first does.\<close>

definition postMessage :: "WebPanelMessage \<Rightarrow> state \<Rightarrow> state" where
  "postMessage message s =
     (case panel s of Some p \<Rightarrow> s\<lparr>calls := calls s @ [PostMessage message]\<rparr> | None \<Rightarrow> s)"

definition get_title :: "state \<Rightarrow> string" where
  "get_title s = (case panel s of Some p \<Rightarrow> panel_title p | None \<Rightarrow> [])"

definition set_title :: "string \<Rightarrow> state \<Rightarrow> state" where
  "set_title newTitle s =
     (case panel s of
        Some p \<Rightarrow>
          s\<lparr>panel := Some (p\<lparr>panel_title := newTitle\<rparr>), calls := calls s @ [SetTitle newTitle]\<rparr>
      | None \<Rightarrow> s)"

subsection \<open>The handlers and the events of a run\<close>

text \<open>The three callbacks \<^verbatim>\<open>load\<close> subscribes.\<close>

definition onDidDispose :: "state \<Rightarrow> state" where
  "onDidDispose s = s\<lparr>panel := None, calls := calls s @ [ListenerDispose]\<rparr>"

definition onDidReceiveMessage :: "WebPanelMessage \<Rightarrow> state \<Rightarrow> state" where
  "onDidReceiveMessage message s =
     s\<lparr>calls := calls s @ [ListenerOnMessage (msg_type message) (msg_payload message)]\<rparr>"

definition onDidChangeViewState :: "state \<Rightarrow> state" where
  "onDidChangeViewState s = s\<lparr>calls := calls s @ [ListenerOnChangeViewState]\<rparr>"

text \<open>The host delivers an event to every handler subscribed to it, in order.\<close>

definition fire :: "subscription \<Rightarrow> (state \<Rightarrow> state) \<Rightarrow> state \<Rightarrow> state" where
  "fire ev handler s = foldl (\<lambda>s' _. handler s') s (filter (\<lambda>x. x = ev) (registered s))"

text \<open>
  What can happen to a constructed panel: a call of a public operation, the scheduler
  resuming \<^verbatim>\<open>load\<close> or the oldest suspended \<^verbatim>\<open>show\<close>, and the three events of the host.
  The host reports the disposal of a panel once, and reports nothing after it; a view
  state event carries the panel's new \<^verbatim>\<open>visible\<close> and \<^verbatim>\<open>active\<close>.

  The host's answer to \<^verbatim>\<open>panel.dispose()\<close> is the event \<open>HostDidDispose\<close>, as when the user
  closes the panel; a run may hold it right after the call or at any later place, and
  may hold any other event in between. A resumption that cannot run yet (\<open>ResumeLoad\<close>
  once the load has run, \<open>ResumeShow\<close> with no suspended call or on a pending promise)
  leaves the state as it is. The disposal of the registry's entries, when the extension
  is deactivated, is outside the model.
\<close>

datatype event =
    CallShow bool
  | CallUpdateCwd string
  | CallClose
  | CallPostMessage WebPanelMessage
  | CallSetTitle string
  | ResumeLoad
  | ResumeShow
  | HostDidDispose
  | HostDidReceiveMessage WebPanelMessage
  | HostDidChangeViewState bool bool

fun step :: "host \<Rightarrow> state \<Rightarrow> event \<Rightarrow> state" where
  "step h s (CallShow preserveFocus) = show_call preserveFocus s"
| "step h s (CallUpdateCwd new_cwd) = updateCwd new_cwd s"
| "step h s CallClose = close s"
| "step h s (CallPostMessage message) = postMessage message s"
| "step h s (CallSetTitle newTitle) = set_title newTitle s"
| "step h s ResumeLoad = (if loadPromise s = Pending then load_resume h s else s)"
| "step h s ResumeShow = show_resume s"
| "step h s HostDidDispose =
     (if disposed s then s else fire OnDidDispose onDidDispose (s\<lparr>disposed := True\<rparr>))"
| "step h s (HostDidReceiveMessage message) =
     (if disposed s then s else fire OnDidReceiveMessage (onDidReceiveMessage message) s)"
| "step h s (HostDidChangeViewState v a) =
     (if disposed s then s
      else fire OnDidChangeViewState onDidChangeViewState
             (s\<lparr>panel := map_option (\<lambda>p. p\<lparr>visible := v, active := a\<rparr>) (panel s)\<rparr>))"

definition run :: "host \<Rightarrow> state \<Rightarrow> event list \<Rightarrow> state" where
  "run h s evs = foldl (step h) s evs"

subsection \<open>Predicates on calls, events and states\<close>

fun is_PathExists :: "call \<Rightarrow> bool" where
  "is_PathExists (PathExists x) = True"
| "is_PathExists _ = False"

fun is_SetHtml :: "call \<Rightarrow> bool" where
  "is_SetHtml (SetHtml x) = True"
| "is_SetHtml _ = False"

fun is_Reveal :: "call \<Rightarrow> bool" where
  "is_Reveal (Reveal c b) = True"
| "is_Reveal _ = False"

text \<open>The public operations, and the resumption of a suspended \<^verbatim>\<open>show\<close>.\<close>

fun is_operation :: "event \<Rightarrow> bool" where
  "is_operation (CallShow b) = True"
| "is_operation (CallUpdateCwd c) = True"
| "is_operation CallClose = True"
| "is_operation (CallPostMessage m) = True"
| "is_operation (CallSetTitle x) = True"
| "is_operation ResumeShow = True"
| "is_operation _ = False"

text \<open>The handlers \<^verbatim>\<open>load\<close> subscribes when every script exists.\<close>

definition subscribed :: "subscription list" where
  "subscribed = [OnDidDispose, OnDidReceiveMessage, OnDidChangeViewState]"

text \<open>
  What holds of every state a constructed panel can reach: the options never change,
  nothing was thrown, the panel reference is set and no handler is subscribed while the
  load is pending, and the promise is never rejected.
\<close>

definition consistent :: "host \<Rightarrow> IWebPanelOptions \<Rightarrow> state \<Rightarrow> bool" where
  "consistent h opts s \<longleftrightarrow>
     options s = opts \<and> raised s = [] \<and>
     (case loadPromise s of
        Pending \<Rightarrow> panel s \<noteq> None \<and> registered s = []
      | Resolved \<Rightarrow>
          registered s = (if list_all (pathExists h) (scripts opts) then subscribed else [])
      | Rejected e \<Rightarrow> False)"

text \<open>Every \<open>Reveal\<close> of a list of calls comes after a \<open>SetHtml\<close> (or \<open>seen\<close> holds).\<close>

fun reveal_guarded :: "bool \<Rightarrow> call list \<Rightarrow> bool" where
  "reveal_guarded seen [] = True"
| "reveal_guarded seen (c # cs) =
     ((is_Reveal c \<longrightarrow> seen) \<and> reveal_guarded (seen \<or> is_SetHtml c) cs)"

text \<open>What holds of the calls made up to a reachable state.\<close>

definition traced :: "IWebPanelOptions \<Rightarrow> state \<Rightarrow> bool" where
  "traced opts s \<longleftrightarrow>
     filter is_PathExists (calls s) = map PathExists (scripts opts) \<and>
     length (filter is_SetHtml (calls s)) = (if loadPromise s = Pending then 0 else 1) \<and>
     reveal_guarded False (calls s) \<and>
     count_list (calls s) ListenerDispose \<le> (if disposed s then 1 else 0)"

text \<open>
  A call without the text of the page it assigns, and a state without the identifier and
  without any text of a page: the identifier field, the page held by the panel and the
  page handed to the webview are emptied, everything else is kept.
\<close>

fun without_page_text :: "call \<Rightarrow> call" where
  "without_page_text (SetHtml x) = SetHtml []"
| "without_page_text c = c"

definition without_page :: "state \<Rightarrow> state" where
  "without_page s =
     s\<lparr>ident := [], panel := map_option (\<lambda>p. p\<lparr>html := []\<rparr>) (panel s),
       calls := map without_page_text (calls s)\<rparr>"

text \<open>The page the load step assigns, by its two tests.\<close>

definition assigned_page :: "host \<Rightarrow> string \<Rightarrow> string option \<Rightarrow> IWebPanelOptions \<Rightarrow> string" where
  "assigned_page h u t opts =
     (if list_all (pathExists h) (scripts opts)
      then (if startHttpServer opts then generateServerReactHtml h u t opts
            else generateLocalReactHtml h opts)
      else format h (badWebPanelFormatString h) (join '', '' (scripts opts)))"

text \<open>
  What holds of the page in every reachable state: the identifier and the token are those
  of the construction, the one page assigned is \<open>assigned_page\<close>, and the panel holds it
  from then on (before that, the page the host created the panel with).
\<close>

definition paged :: "host \<Rightarrow> string \<Rightarrow> string option \<Rightarrow> IWebPanelOptions \<Rightarrow> string \<Rightarrow> state \<Rightarrow> bool" where
  "paged h u t opts first s \<longleftrightarrow>
     ident s = u \<and> token s = t \<and>
     filter is_SetHtml (calls s) =
       (if loadPromise s = Pending then [] else [SetHtml (assigned_page h u t opts)]) \<and>
     (case panel s of
        None \<Rightarrow> True
      | Some p \<Rightarrow> html p = (if loadPromise s = Pending then first else assigned_page h u t opts))"

subsection \<open>Sample collaborators\<close>

text \<open>
  A concrete host and concrete options, on which the model runs: two script files exist,
  a local file is addressed through the \<^verbatim>\<open>vscode-resource:\<close> scheme, a new panel shows the
  title it was given, \<^verbatim>\<open>format\<close> fills the placeholder \<^verbatim>\<open>{0}\<close>, and \<^verbatim>\<open>encodeURIComponent\<close>
  is the standard function (every character outside the unreserved ones becomes a percent
  sign and two hexadecimal digits for each byte of its UTF-8 form: one byte below 128, two
  from 128 on).
\<close>

definition hex_digit :: "nat \<Rightarrow> char" where
  "hex_digit n = ''0123456789ABCDEF'' ! n"

definition unreserved :: "char \<Rightarrow> bool" where
  "unreserved c \<longleftrightarrow>
     c \<in> set ''ABCDEFGHIJKLMNOPQRSTUVWXYZabcdefghijklmnopqrstuvwxyz0123456789-_.!~*'()''"

definition percent_byte :: "nat \<Rightarrow> string" where
  "percent_byte n = [CHR ''%'', hex_digit (n div 16), hex_digit (n mod 16)]"

definition percent_encode :: "string \<Rightarrow> string" where
  "percent_encode s =
     concat (map (\<lambda>c. if unreserved c then [c]
                        else if (of_char c :: nat) < 128 then percent_byte (of_char c)
                        else percent_byte (192 + of_char c div 64) @
                             percent_byte (128 + of_char c mod 64)) s)"

definition sample_host :: host where
  "sample_host =
     \<lparr>pathExists = (\<lambda>p. p \<in> set [''/ext/out/index.js'', ''/ext/out/vendor.js'']),
      asWebviewUri = (\<lambda>p. ''vscode-resource:'' @ p),
      createWebviewPanel = (\<lambda>vt t so wo.
         \<lparr>panel_title = t, html = [], panel_viewColumn = Some (fst so),
          visible = True, active = True\<rparr>),
      GeneratedThemeName = ''ipython-theme'',
      badWebPanelFormatString = ''Unable to load {0}'',
      format = (\<lambda>f a. replace ''{0}'' a f),
      encodeURIComponent = percent_encode\<rparr>"

definition sample_options :: IWebPanelOptions where
  "sample_options =
     \<lparr>title = ''Python Data Viewer'', viewColumn = 2, rootPath = ''/ext/out'',
      scripts = [''/ext/out/index.js''], cwd = ''/home/me'', startHttpServer = False\<rparr>"

text \<open>The same options with a second script, which is not on disk.\<close>

definition missing_options :: IWebPanelOptions where
  "missing_options =
     sample_options\<lparr>scripts := [''/ext/out/index.js'', ''/ext/out/missing.js'']\<rparr>"

text \<open>The sample options in serve mode.\<close>

definition serve_options :: IWebPanelOptions where
  "serve_options = sample_options\<lparr>startHttpServer := True\<rparr>"

text \<open>A panel right after its construction, and the same panel loaded and then disposed
  by the host.\<close>

definition sample_panel :: state where
  "sample_panel = constructor sample_host ''id-1'' None None sample_options"

definition closed_panel :: state where
  "closed_panel = run sample_host sample_panel [ResumeLoad, HostDidDispose]"

text \<open>The sample panel loaded; and with \<^verbatim>\<open>show\<close> called before the load resumed.\<close>

definition loaded_panel :: state where
  "loaded_panel = run sample_host sample_panel [ResumeLoad]"

definition shown_panel :: state where
  "shown_panel = run sample_host sample_panel [CallShow True, ResumeShow, ResumeLoad, ResumeShow]"

section \<open>Properties\<close>

subsection \<open>Runs\<close>

lemma run_Nil [simp]: "run h s [] = s"
  by (simp add: run_def)

lemma run_snoc [simp]: "run h s (evs @ [e]) = step h (run h s evs) e"
  by (simp add: run_def)

lemma run_Cons [simp]: "run h s (e # evs) = run h (step h s e) evs"
  by (simp add: run_def)

lemma run_append: "run h s (xs @ ys) = run h (run h s xs) ys"
  by (simp add: run_def)

lemma constructor_calls:
  "calls (constructor h u p t opts) =
     CreateWebviewPanel (viewType opts) (title opts) (viewColumn opts, True)
       \<lparr>enableScripts = True, retainContextWhenHidden = True,
        localResourceRoots = [rootPath opts],
        portMapping = (case p of None \<Rightarrow> None
                       | Some n \<Rightarrow> if n \<noteq> 0 then Some [(RemappedPort, n)] else None)\<rparr>
     # map PathExists (scripts opts)"
  by (simp add: constructor_def load_def Let_def)

subsection \<open>Reachable states\<close>

text \<open>
  \<open>consistent\<close> and \<open>traced\<close> hold of a panel after its construction and are kept by
  every event, so they hold after every run. In a consistent state at most one handler is
  subscribed to an event, and the host's delivery runs it once or not at all.
\<close>

lemma list_all_set: "list_all f xs \<longleftrightarrow> (\<forall>x\<in>set xs. f x)"
  by (simp add: list_all_iff)

lemma constructor_fields:
  "panel (constructor h u p t opts) \<noteq> None"
  "loadPromise (constructor h u p t opts) = Pending"
  "options (constructor h u p t opts) = opts"
  "ident (constructor h u p t opts) = u"
  "token (constructor h u p t opts) = t"
  "raised (constructor h u p t opts) = []"
  by (simp_all add: constructor_def load_def Let_def)

lemma every_exists:
  "list_all (\<lambda>exists. exists = True) (map f xs) = list_all f xs"
  "list_all (\<lambda>exists. exists) (map f xs) = list_all f xs"
  by (induction xs) simp_all

lemma fire_none: "registered s = [] \<Longrightarrow> fire ev f s = s"
  by (simp add: fire_def)

lemma fire_subscribed: "registered s = subscribed \<Longrightarrow> fire ev f s = f s"
  by (cases ev) (simp_all add: fire_def subscribed_def)

lemma consistent_registered:
  "consistent h opts s \<Longrightarrow> registered s = [] \<or> registered s = subscribed"
  by (auto simp: consistent_def split: promise.splits if_splits)

lemma consistent_constructor: "consistent h opts (constructor h u p t opts)"
  by (simp add: consistent_def constructor_def load_def Let_def)

lemmas operation_defs =
  show_call_def show_resume_def updateCwd_def close_def postMessage_def set_title_def
  load_resume_def onDidDispose_def onDidReceiveMessage_def onDidChangeViewState_def

lemma consistent_step:
  assumes "consistent h opts s"
  shows "consistent h opts (step h s e)"
proof (cases e)
  case ResumeLoad
  with assms show ?thesis
    by (auto simp: consistent_def load_resume_def every_exists subscribed_def Let_def
             split: promise.splits option.splits)
next
  case ResumeShow
  with assms show ?thesis
    by (auto simp: consistent_def show_resume_def split: promise.splits option.splits list.splits)
next
  case HostDidDispose
  with assms consistent_registered [OF assms] show ?thesis
    by (auto simp: consistent_def fire_none fire_subscribed onDidDispose_def
             split: promise.splits)
next
  case (HostDidReceiveMessage m)
  with assms consistent_registered [OF assms] show ?thesis
    by (auto simp: consistent_def fire_none fire_subscribed onDidReceiveMessage_def
             split: promise.splits)
next
  case (HostDidChangeViewState v a)
  with assms consistent_registered [OF assms] show ?thesis
    by (auto simp: consistent_def fire_none fire_subscribed onDidChangeViewState_def
             split: promise.splits)
qed (use assms in \<open>auto simp: consistent_def operation_defs split: promise.splits option.splits\<close>)

lemma consistent_run:
  "consistent h opts s \<Longrightarrow> consistent h opts (run h s evs)"
  by (induction evs rule: rev_induct) (simp_all add: consistent_step)

lemma consistent_reachable:
  "consistent h opts (run h (constructor h u p t opts) evs)"
  by (rule consistent_run [OF consistent_constructor])

lemma reveal_guarded_append:
  "reveal_guarded seen (xs @ ys) \<longleftrightarrow>
     reveal_guarded seen xs \<and> reveal_guarded (seen \<or> filter is_SetHtml xs \<noteq> []) ys"
  by (induction xs arbitrary: seen) auto

lemma filter_PathExists_map [simp]:
  "filter is_PathExists (map PathExists xs) = map PathExists xs"
  "filter is_SetHtml (map PathExists xs) = []"
  "count_list (map PathExists xs) ListenerDispose = 0"
  by (induction xs) simp_all

lemma reveal_guarded_map [simp]: "reveal_guarded seen (map PathExists xs)"
  by (induction xs arbitrary: seen) simp_all

lemma count_list_append [simp]: "count_list (xs @ ys) x = count_list xs x + count_list ys x"
  by (induction xs) simp_all

lemma traced_constructor: "traced opts (constructor h u p t opts)"
  by (simp add: traced_def constructor_def load_def Let_def)

lemma traced_step:
  assumes "consistent h opts s" and "traced opts s"
  shows "traced opts (step h s e)"
proof (cases e)
  case ResumeLoad
  with assms show ?thesis
    by (auto simp: traced_def consistent_def load_resume_def Let_def reveal_guarded_append
             split: promise.splits option.splits)
next
  case ResumeShow
  with assms show ?thesis
    by (auto simp: traced_def consistent_def show_resume_def reveal_guarded_append
             split: promise.splits option.splits list.splits)
next
  case HostDidDispose
  with assms consistent_registered [OF assms(1)] show ?thesis
    by (auto simp: traced_def fire_none fire_subscribed onDidDispose_def reveal_guarded_append)
next
  case (HostDidReceiveMessage m)
  with assms consistent_registered [OF assms(1)] show ?thesis
    by (auto simp: traced_def fire_none fire_subscribed onDidReceiveMessage_def
                   reveal_guarded_append)
next
  case (HostDidChangeViewState v a)
  with assms consistent_registered [OF assms(1)] show ?thesis
    by (auto simp: traced_def fire_none fire_subscribed onDidChangeViewState_def
                   reveal_guarded_append)
qed (use assms in \<open>auto simp: traced_def operation_defs reveal_guarded_append
                        split: option.splits\<close>)

lemma traced_run:
  "consistent h opts s \<Longrightarrow> traced opts s \<Longrightarrow> traced opts (run h s evs)"
  by (induction evs rule: rev_induct) (simp_all add: traced_step consistent_run)

lemma traced_reachable: "traced opts (run h (constructor h u p t opts) evs)"
  by (rule traced_run [OF consistent_constructor traced_constructor])

lemma reveal_guarded_split:
  assumes "reveal_guarded False cs" and "cs = pre @ Reveal c b # post"
  shows "\<exists>page. SetHtml page \<in> set pre"
proof -
  from assms have "filter is_SetHtml pre \<noteq> []"
    by (simp add: reveal_guarded_append)
  then obtain x where x: "x \<in> set pre" "is_SetHtml x"
    by (auto simp: filter_empty_conv)
  have "\<exists>page. x = SetHtml page"
    by (cases x) (use x(2) in simp_all)
  with x(1) show ?thesis
    by blast
qed

text \<open>A resolved promise stays resolved, and no later event assigns a page.\<close>

lemma resolved_step:
  assumes "consistent h opts s" and "loadPromise s = Resolved"
  shows "loadPromise (step h s e) = Resolved \<and>
         filter is_SetHtml (calls (step h s e)) = filter is_SetHtml (calls s)"
proof (cases e)
  case ResumeShow
  with assms show ?thesis
    by (auto simp: show_resume_def split: option.splits list.splits)
next
  case HostDidDispose
  with assms consistent_registered [OF assms(1)] show ?thesis
    by (auto simp: fire_none fire_subscribed onDidDispose_def)
next
  case (HostDidReceiveMessage m)
  with assms consistent_registered [OF assms(1)] show ?thesis
    by (auto simp: fire_none fire_subscribed onDidReceiveMessage_def)
next
  case (HostDidChangeViewState v a)
  with assms consistent_registered [OF assms(1)] show ?thesis
    by (auto simp: fire_none fire_subscribed onDidChangeViewState_def)
qed (use assms in \<open>auto simp: operation_defs split: option.splits\<close>)

lemma resolved_run:
  assumes "consistent h opts s" and "loadPromise s = Resolved"
  shows "loadPromise (run h s later) = Resolved \<and>
         filter is_SetHtml (calls (run h s later)) = filter is_SetHtml (calls s)"
proof (induction later rule: rev_induct)
  case Nil
  with assms show ?case by simp
next
  case (snoc e later)
  with resolved_step [OF consistent_run [OF assms(1), of later], of e] show ?case
    by simp
qed

text \<open>After the teardown the reference stays cleared and the listener is left alone.\<close>

lemma after_dispose_step:
  assumes "consistent h opts s" and "disposed s" and "panel s = None"
  shows "disposed (step h s e) \<and> panel (step h s e) = None \<and>
         count_list (calls (step h s e)) ListenerDispose = count_list (calls s) ListenerDispose"
proof -
  have r: "loadPromise s = Resolved"
    using assms(1,3) by (auto simp: consistent_def split: promise.splits)
  show ?thesis
    using assms(2,3) r
    by (cases e) (auto simp: operation_defs split: option.splits list.splits)
qed

lemma after_dispose_run:
  assumes "consistent h opts s" and "disposed s" and "panel s = None"
  shows "disposed (run h s later) \<and> panel (run h s later) = None \<and>
         count_list (calls (run h s later)) ListenerDispose = count_list (calls s) ListenerDispose"
proof (induction later rule: rev_induct)
  case Nil
  with assms show ?case by simp
next
  case (snoc e later)
  with after_dispose_step [OF consistent_run [OF assms(1), of later], of e] show ?case
    by simp
qed

text \<open>Without a panel reference an operation changes the suspended calls at most.\<close>

lemma cleared_operation_step:
  assumes "consistent h opts s" and "panel s = None" and "is_operation e"
  shows "\<exists>aw. step h s e = s\<lparr>awaiting := aw\<rparr>"
proof -
  have r: "loadPromise s = Resolved"
    using assms(1,2) by (auto simp: consistent_def split: promise.splits)
  show ?thesis
  proof (cases e)
    case (CallShow b)
    then show ?thesis by (auto simp: show_call_def)
  next
    case ResumeShow
    then show ?thesis
      using r assms(2) by (cases "awaiting s") (auto simp: show_resume_def intro: exI [of _ "awaiting s"])
  qed (use assms in \<open>auto simp: operation_defs intro: exI [of _ "awaiting s"]\<close>)
qed

lemma cleared_operation_run:
  assumes "consistent h opts s" and "panel s = None" and "\<forall>e\<in>set ops. is_operation e"
  shows "\<exists>aw. run h s ops = s\<lparr>awaiting := aw\<rparr>"
  using assms(3)
proof (induction ops rule: rev_induct)
  case Nil
  show ?case by (auto intro: exI [of _ "awaiting s"])
next
  case (snoc e ops)
  then obtain aw where aw: "run h s ops = s\<lparr>awaiting := aw\<rparr>"
    by auto
  have c: "consistent h opts (s\<lparr>awaiting := aw\<rparr>)"
    using assms(1) by (auto simp: consistent_def split: promise.splits)
  have n: "panel (s\<lparr>awaiting := aw\<rparr>) = None"
    using assms(2) by simp
  have o: "is_operation e"
    using snoc.prems by simp
  from cleared_operation_step [OF c n o] show ?case
    by (auto simp: aw)
qed

subsection \<open>The sample panels\<close>

lemma sample_panel_simps:
  "panel sample_panel = Some \<lparr>panel_title = ''Python Data Viewer'', html = [],
     panel_viewColumn = Some 2, visible = True, active = True\<rparr>"
  "loadPromise sample_panel = Pending"
  "awaiting sample_panel = []"
  "registered sample_panel = []"
  "disposed sample_panel = False"
  "options sample_panel = sample_options"
  "raised sample_panel = []"
  by (simp_all add: sample_panel_def constructor_def load_def Let_def sample_options_def
                    sample_host_def)

text \<open>The script of the sample options as the server page names it.\<close>

lemma sample_encoded_script:
  "map (\<lambda>x. encodeURIComponent sample_host (replace_backslashes x))
     (map (\<lambda>x. ''.'' @ substr x (length (rootPath sample_options))) (scripts sample_options))
   = [''.%2Findex.js'']"
  by (simp add: sample_host_def sample_options_def substr_def replace_backslashes_def
                percent_encode_def percent_byte_def unreserved_def hex_digit_def)

lemma loaded_panel_reachable:
  "loaded_panel = run sample_host (constructor sample_host ''id-1'' None None sample_options) [ResumeLoad]"
  by (simp add: loaded_panel_def sample_panel_def)

lemma loaded_panel_resolved: "loadPromise loaded_panel = Resolved"
  by (simp add: loaded_panel_def sample_panel_simps load_resume_def Let_def)

lemma loaded_panel_not_disposed: "\<not> disposed loaded_panel"
  by (simp add: loaded_panel_def sample_panel_simps load_resume_def Let_def)

lemma closed_panel_reachable:
  "closed_panel = run sample_host (constructor sample_host ''id-1'' None None sample_options)
                    [ResumeLoad, HostDidDispose]"
  by (simp add: closed_panel_def sample_panel_def)

lemma closed_panel_cleared: "panel closed_panel = None"
  by (simp add: closed_panel_def sample_panel_simps load_resume_def Let_def every_exists
                sample_options_def sample_host_def fire_def onDidDispose_def)

subsection \<open>The working directory\<close>

text \<open>
  Claim C9: \<^verbatim>\<open>updateCwd\<close> is a no-op for every argument and every state of the panel. It
  returns the state it was given, so no field changes, no message is posted and no call
  reaches the host.
\<close>

theorem updateCwd_changes_nothing:
  "updateCwd new_cwd s = s \<and> step h s (CallUpdateCwd new_cwd) = s \<and>
   calls (updateCwd new_cwd s) = calls s"
  by (simp add: updateCwd_def)

subsection \<open>The view type\<close>

lemma lower_char_space: "lower_char c = CHR '' '' \<longleftrightarrow> c = CHR '' ''"
  by (auto simp: lower_char_def split: option.splits if_splits)

lemma space_lower_char: "CHR '' '' = lower_char c \<longleftrightarrow> CHR '' '' = c"
  using lower_char_space [of c] by (simp add: eq_commute [of "CHR '' ''"])

lemma replace_first_space:
  "CHR '' '' \<notin> set a \<Longrightarrow> replace '' '' [] (a @ CHR '' '' # b) = a @ b"
  by (induction a) auto

lemma toLowerCase_no_space: "CHR '' '' \<notin> set a \<Longrightarrow> CHR '' '' \<notin> set (toLowerCase a)"
  by (induction a) (simp_all add: toLowerCase_def space_lower_char)

lemma toLowerCase_nth_space:
  "i < length b \<Longrightarrow> (toLowerCase b ! i = CHR '' '') = (b ! i = CHR '' '')"
  by (simp add: toLowerCase_def lower_char_space)

lemma count_list_toLowerCase_space:
  "count_list (toLowerCase b) (CHR '' '') = count_list b (CHR '' '')"
  by (induction b) (auto simp: toLowerCase_def lower_char_space)

lemma viewType_split:
  assumes "title opts = a @ '' '' @ b" and "CHR '' '' \<notin> set a"
  shows "viewType opts = toLowerCase a @ toLowerCase b"
proof -
  have "toLowerCase (title opts) = toLowerCase a @ CHR '' '' # toLowerCase b"
    using assms(1) by (simp add: toLowerCase_def lower_char_space)
  then show ?thesis
    using toLowerCase_no_space [OF assms(2)] by (simp add: viewType_def replace_first_space)
qed

text \<open>
  Claim C10: the view type handed to the host at creation is the title in lower case
  (accented capitals included) without its first space. When the title is \<open>a\<close>, a space and \<open>b\<close>, with no space in
  \<open>a\<close>, the view type is \<open>a\<close> and \<open>b\<close> in lower case, one after the other: every space
  of \<open>b\<close> (every space after the first) is still there, at its place.
\<close>

theorem viewType_drops_first_space_only:
  assumes "title opts = a @ '' '' @ b" and "CHR '' '' \<notin> set a"
  shows "viewType opts = toLowerCase a @ toLowerCase b \<and>
         (\<exists>so wo. hd (calls (constructor h u p t opts)) =
            CreateWebviewPanel (toLowerCase a @ toLowerCase b) (title opts) so wo) \<and>
         count_list (viewType opts) (CHR '' '') = count_list b (CHR '' '') \<and>
         (\<forall>i<length b. (viewType opts ! (length a + i) = CHR '' '') = (b ! i = CHR '' ''))"
proof -
  have v: "viewType opts = toLowerCase a @ toLowerCase b"
    using assms by (rule viewType_split)
  have len: "length (toLowerCase a) = length a"
    by (simp add: toLowerCase_def)
  have c: "count_list (viewType opts) (CHR '' '') = count_list b (CHR '' '')"
    using assms(2) by (simp add: v count_list_toLowerCase_space)
  have n: "\<forall>i<length b. (viewType opts ! (length a + i) = CHR '' '') = (b ! i = CHR '' '')"
    using len by (simp add: v nth_append toLowerCase_nth_space)
  have k: "\<exists>so wo. hd (calls (constructor h u p t opts)) =
            CreateWebviewPanel (toLowerCase a @ toLowerCase b) (title opts) so wo"
    unfolding constructor_calls v list.sel by (intro exI) (rule refl)
  show ?thesis
    using v k c n by (intro conjI)
qed

theorem viewType_drops_first_space_only_witness:
  "viewType sample_options = ''pythondata viewer'' \<and>
   count_list (viewType sample_options) (CHR '' '') = 1 \<and>
   viewType (sample_options\<lparr>title := [CHR 0xC9, CHR ''t'', CHR 0xE9, CHR '' '', CHR ''Z'']\<rparr>)
     = [CHR 0xE9, CHR ''t'', CHR 0xE9, CHR ''z'']"
proof -
  have t': "title (sample_options\<lparr>title := [CHR 0xC9, CHR ''t'', CHR 0xE9, CHR '' '', CHR ''Z'']\<rparr>)
              = [CHR 0xC9, CHR ''t'', CHR 0xE9] @ '' '' @ ''Z''"
    by simp
  have s': "CHR '' '' \<notin> set [CHR 0xC9, CHR ''t'', CHR 0xE9]"
    by simp
  from viewType_drops_first_space_only [OF t' s', of sample_host "''id-1''" None None]
  have accented:
    "viewType (sample_options\<lparr>title := [CHR 0xC9, CHR ''t'', CHR 0xE9, CHR '' '', CHR ''Z'']\<rparr>)
       = [CHR 0xE9, CHR ''t'', CHR 0xE9, CHR ''z'']"
    by (simp add: toLowerCase_def lower_char_def)
  have t: "title sample_options = ''Python'' @ '' '' @ ''Data Viewer''"
    by (simp add: sample_options_def)
  have s: "CHR '' '' \<notin> set ''Python''"
    by simp
  from viewType_drops_first_space_only [OF t s, of sample_host "''id-1''" None None]
  have plain: "viewType sample_options = ''pythondata viewer'' \<and>
               count_list (viewType sample_options) (CHR '' '') = 1"
    by (simp add: toLowerCase_def lower_char_def)
  from plain accented show ?thesis
    by simp
qed

subsection \<open>The load step\<close>

text \<open>
  Claim C1: when the load step resumes, it assigns the formatted error string (the format
  string for a panel that cannot load, applied to the script paths joined by a comma and a
  space) and does nothing else if and only if some declared script is not on disk. In
  that case the promise is resolved and no error ever reaches a caller. When every
  script is on disk the application page is assigned (the server page or the local one),
  the three handlers are pushed to the registry and the listener is told the view state.
\<close>

theorem load_error_iff_script_missing:
  "let s0 = constructor h u p t opts;
       s1 = step h s0 ResumeLoad;
       err = format h (badWebPanelFormatString h) (join '', '' (scripts opts));
       app = (if startHttpServer opts then generateServerReactHtml h u t opts
              else generateLocalReactHtml h opts)
   in ((calls s1 = calls s0 @ [SetHtml err]) = (\<exists>x\<in>set (scripts opts). \<not> pathExists h x)) \<and>
      ((\<exists>x\<in>set (scripts opts). \<not> pathExists h x) \<longrightarrow>
         map_option html (panel s1) = Some err \<and> loadPromise s1 = Resolved \<and>
         (\<forall>evs. raised (run h s1 evs) = [])) \<and>
      ((\<forall>x\<in>set (scripts opts). pathExists h x) \<longrightarrow>
         map_option html (panel s1) = Some app \<and> loadPromise s1 = Resolved \<and>
         calls s1 = calls s0 @
           [SetHtml app, RegistryPush OnDidDispose, RegistryPush OnDidReceiveMessage,
            RegistryPush OnDidChangeViewState, ListenerOnChangeViewState])"
proof -
  define s0 where "s0 = constructor h u p t opts"
  define s1 where "s1 = step h s0 ResumeLoad"
  obtain pn where pn: "panel s0 = Some pn"
    using constructor_fields(1) [of h u p t opts] by (auto simp: s0_def)
  have f: "loadPromise s0 = Pending" "options s0 = opts" "ident s0 = u" "token s0 = t"
    by (simp_all add: s0_def constructor_fields)
  have r: "raised (run h s1 evs) = []" for evs
  proof -
    have "run h s1 evs = run h s0 (ResumeLoad # evs)"
      by (simp add: s1_def)
    then show ?thesis
      using consistent_reachable [of h opts u p t "ResumeLoad # evs"]
      by (simp add: s0_def consistent_def)
  qed
  show ?thesis
    unfolding Let_def s0_def [symmetric] s1_def [symmetric]
    using r by (auto simp: s1_def f pn load_resume_def every_exists list_all_set Let_def)
qed

theorem load_error_iff_script_missing_witness:
  "map_option html (panel (step sample_host (constructor sample_host ''id-1'' None None missing_options) ResumeLoad))
     = Some ''Unable to load /ext/out/index.js, /ext/out/missing.js'' \<and>
   loadPromise (step sample_host (constructor sample_host ''id-1'' None None missing_options) ResumeLoad)
     = Resolved"
proof -
  have m: "\<exists>x\<in>set (scripts missing_options). \<not> pathExists sample_host x"
    by (simp add: missing_options_def sample_options_def sample_host_def)
  have e: "format sample_host (badWebPanelFormatString sample_host)
             (join '', '' (scripts missing_options))
           = ''Unable to load /ext/out/index.js, /ext/out/missing.js''"
    by (simp add: missing_options_def sample_options_def sample_host_def)
  from load_error_iff_script_missing [of sample_host "''id-1''" None None missing_options] m
  show ?thesis
    by (simp add: Let_def e)
qed

text \<open>
  Claim C5: when every script is on disk, the load step assigns the server page if
  \<^verbatim>\<open>startHttpServer\<close> is set and the local page if it is not, and that is the one page it
  assigns.
\<close>

theorem load_picks_generator_by_startHttpServer:
  assumes "\<forall>x\<in>set (scripts opts). pathExists h x"
  shows "let s0 = constructor h u p t opts; s1 = step h s0 ResumeLoad in
           (startHttpServer opts \<longrightarrow>
              map_option html (panel s1) = Some (generateServerReactHtml h u t opts) \<and>
              filter is_SetHtml (calls s1) = [SetHtml (generateServerReactHtml h u t opts)]) \<and>
           (\<not> startHttpServer opts \<longrightarrow>
              map_option html (panel s1) = Some (generateLocalReactHtml h opts) \<and>
              filter is_SetHtml (calls s1) = [SetHtml (generateLocalReactHtml h opts)])"
proof -
  define s0 where "s0 = constructor h u p t opts"
  obtain pn where pn: "panel s0 = Some pn"
    using constructor_fields(1) [of h u p t opts] by (auto simp: s0_def)
  have f: "loadPromise s0 = Pending" "options s0 = opts" "ident s0 = u" "token s0 = t"
    by (simp_all add: s0_def constructor_fields)
  have c: "filter is_SetHtml (calls s0) = []"
    by (simp add: s0_def constructor_calls)
  show ?thesis
    unfolding Let_def s0_def [symmetric]
    using assms by (simp add: f pn c load_resume_def every_exists list_all_set Let_def)
qed

theorem load_picks_generator_by_startHttpServer_witness:
  "filter is_SetHtml
     (calls (step sample_host
        (constructor sample_host ''id-1'' (Some 8000) (Some ''secret'')
           (sample_options\<lparr>startHttpServer := True\<rparr>)) ResumeLoad))
   = [SetHtml (generateServerReactHtml sample_host ''id-1'' (Some ''secret'')
        (sample_options\<lparr>startHttpServer := True\<rparr>))] \<and>
   filter is_SetHtml
     (calls (step sample_host (constructor sample_host ''id-1'' None None sample_options)
        ResumeLoad))
   = [SetHtml (generateLocalReactHtml sample_host sample_options)]"
proof -
  have a: "\<forall>x\<in>set (scripts (sample_options\<lparr>startHttpServer := True\<rparr>)). pathExists sample_host x"
    by (simp add: sample_options_def sample_host_def)
  have b: "\<forall>x\<in>set (scripts sample_options). pathExists sample_host x"
    by (simp add: sample_options_def sample_host_def)
  from load_picks_generator_by_startHttpServer [OF a, of "''id-1''" "Some 8000" "Some ''secret''"]
       load_picks_generator_by_startHttpServer [OF b, of "''id-1''" None None]
  show ?thesis
    by (simp add: Let_def sample_options_def)
qed

subsection \<open>Operations that do not wait\<close>

text \<open>
  Claim C6: \<^verbatim>\<open>close\<close> and \<^verbatim>\<open>postMessage\<close> do not wait for the load. With a panel reference
  each makes its host call within the call itself, whatever the state of the promise (in
  particular right after construction, when the load is pending); without one each
  leaves the state as it is. Neither suspends, and neither touches the promise.
\<close>

theorem close_and_postMessage_do_not_await:
  "(panel s \<noteq> None \<longrightarrow>
      calls (step h s CallClose) = calls s @ [Dispose] \<and>
      calls (step h s (CallPostMessage m)) = calls s @ [PostMessage m]) \<and>
   (panel s = None \<longrightarrow> step h s CallClose = s \<and> step h s (CallPostMessage m) = s) \<and>
   awaiting (step h s CallClose) = awaiting s \<and>
   awaiting (step h s (CallPostMessage m)) = awaiting s \<and>
   loadPromise (step h s CallClose) = loadPromise s \<and>
   loadPromise (step h s (CallPostMessage m)) = loadPromise s \<and>
   (let s0 = constructor h u p t opts in
      loadPromise s0 = Pending \<and>
      calls (step h s0 CallClose) = calls s0 @ [Dispose] \<and>
      calls (step h s0 (CallPostMessage m)) = calls s0 @ [PostMessage m])"
proof -
  obtain pn where pn: "panel (constructor h u p t opts) = Some pn"
    using constructor_fields(1) [of h u p t opts] by auto
  show ?thesis
    by (auto simp: close_def postMessage_def Let_def pn constructor_fields
             split: option.splits)
qed

theorem close_and_postMessage_do_not_await_witness:
  "panel closed_panel = None \<and>
   step sample_host closed_panel CallClose = closed_panel \<and>
   step sample_host closed_panel (CallPostMessage (WebPanelMessage ''ping'' ''1'')) = closed_panel \<and>
   calls (step sample_host sample_panel CallClose) = calls sample_panel @ [Dispose]"
proof -
  have n: "panel closed_panel = None"
    by (simp add: closed_panel_def sample_panel_def constructor_def load_def load_resume_def
                  Let_def sample_options_def sample_host_def fire_def onDidDispose_def)
  from close_and_postMessage_do_not_await
         [of closed_panel sample_host "WebPanelMessage ''ping'' ''1''" "''id-1''" None None
             sample_options] n
  show ?thesis
    by (simp add: Let_def sample_panel_def)
qed

subsection \<open>The readiness gate\<close>

text \<open>
  Claim C2: \<^verbatim>\<open>show\<close> never reveals the panel before the load step has resolved. In the
  calls of every run of a constructed panel, whatever the order of the events, a
  \<open>Reveal\<close> comes only after the assignment of the page, and a run whose calls hold a
  \<open>Reveal\<close> has its promise resolved.
\<close>

theorem show_reveals_only_after_load:
  assumes "calls (run h (constructor h u p t opts) evs) = pre @ Reveal c b # post"
  shows "(\<exists>page. SetHtml page \<in> set pre) \<and>
         loadPromise (run h (constructor h u p t opts) evs) = Resolved"
proof -
  define s where "s = run h (constructor h u p t opts) evs"
  have tr: "traced opts s" and co: "consistent h opts s"
    by (simp_all add: s_def traced_reachable consistent_reachable)
  have g: "reveal_guarded False (calls s)"
    using tr by (simp add: traced_def)
  have a: "calls s = pre @ Reveal c b # post"
    using assms by (simp add: s_def)
  from reveal_guarded_split [OF g a] obtain page where page: "SetHtml page \<in> set pre"
    by blast
  then have "filter is_SetHtml (calls s) \<noteq> []"
    by (auto simp: a filter_empty_conv intro!: bexI [of _ "SetHtml page"])
  then have "loadPromise s \<noteq> Pending"
    using tr by (auto simp: traced_def)
  then have "loadPromise s = Resolved"
    using co by (auto simp: consistent_def split: promise.splits)
  with page show ?thesis
    by (auto simp: s_def)
qed

theorem show_reveals_only_after_load_witness:
  "calls (run sample_host sample_panel [CallShow True, ResumeShow]) = calls sample_panel \<and>
   calls shown_panel =
     (calls sample_panel @
      [SetHtml (generateLocalReactHtml sample_host sample_options),
       RegistryPush OnDidDispose, RegistryPush OnDidReceiveMessage,
       RegistryPush OnDidChangeViewState, ListenerOnChangeViewState]) @
     Reveal (Some 2) True # [] \<and>
   loadPromise shown_panel = Resolved"
proof -
  have a: "calls (run sample_host sample_panel [CallShow True, ResumeShow]) = calls sample_panel"
    by (simp add: sample_panel_simps show_call_def show_resume_def)
  have pe: "list_all (pathExists sample_host) (scripts sample_options)"
    by (simp add: sample_options_def sample_host_def)
  have c: "calls (run sample_host (constructor sample_host ''id-1'' None None sample_options)
             [CallShow True, ResumeShow, ResumeLoad, ResumeShow]) =
     (calls sample_panel @
      [SetHtml (generateLocalReactHtml sample_host sample_options),
       RegistryPush OnDidDispose, RegistryPush OnDidReceiveMessage,
       RegistryPush OnDidChangeViewState, ListenerOnChangeViewState]) @
     Reveal (Some 2) True # []"
    unfolding sample_panel_def [symmetric]
    by (simp add: sample_panel_simps show_call_def show_resume_def load_resume_def every_exists
                  pe Let_def)
       (simp add: sample_options_def)
  from show_reveals_only_after_load [OF c] a c show ?thesis
    by (simp add: shown_panel_def sample_panel_def)
qed

text \<open>
  Claim C7: the load is started once, at construction, and is not run again. In every run
  the existence checks among the calls are those of the constructor, the page is assigned
  at most once, and once the promise is resolved it stays resolved: resuming the load
  again changes nothing and no later event assigns a page.
\<close>

theorem load_runs_once:
  "let s = run h (constructor h u p t opts) evs in
     filter is_PathExists (calls s) = map PathExists (scripts opts) \<and>
     length (filter is_SetHtml (calls s)) \<le> 1 \<and>
     (loadPromise s = Resolved \<longrightarrow>
        step h s ResumeLoad = s \<and>
        (\<forall>later. loadPromise (run h s later) = Resolved \<and>
                filter is_SetHtml (calls (run h s later)) = filter is_SetHtml (calls s)))"
proof -
  define s where "s = run h (constructor h u p t opts) evs"
  have tr: "traced opts s" and co: "consistent h opts s"
    by (simp_all add: s_def traced_reachable consistent_reachable)
  have a: "filter is_PathExists (calls s) = map PathExists (scripts opts)"
    using tr by (simp add: traced_def)
  have b: "length (filter is_SetHtml (calls s)) \<le> 1"
    using tr by (simp add: traced_def)
  have c: "loadPromise s = Resolved \<longrightarrow>
        step h s ResumeLoad = s \<and>
        (\<forall>later. loadPromise (run h s later) = Resolved \<and>
                filter is_SetHtml (calls (run h s later)) = filter is_SetHtml (calls s))"
    using resolved_run [OF co] by simp
  show ?thesis
    unfolding Let_def s_def [symmetric] using a b c by (intro conjI)
qed

theorem load_runs_once_witness:
  "loadPromise loaded_panel = Resolved \<and>
   step sample_host loaded_panel ResumeLoad = loaded_panel \<and>
   loadPromise (run sample_host loaded_panel [CallShow True, ResumeLoad, ResumeShow]) = Resolved \<and>
   filter is_PathExists (calls loaded_panel) = [PathExists ''/ext/out/index.js'']"
proof -
  have a: "filter is_PathExists (calls loaded_panel) = map PathExists (scripts sample_options)"
    and b: "loadPromise loaded_panel = Resolved \<longrightarrow>
        step sample_host loaded_panel ResumeLoad = loaded_panel \<and>
        (\<forall>later. loadPromise (run sample_host loaded_panel later) = Resolved \<and>
           filter is_SetHtml (calls (run sample_host loaded_panel later)) =
           filter is_SetHtml (calls loaded_panel))"
    using load_runs_once [of sample_host "''id-1''" None None sample_options "[ResumeLoad]"]
    unfolding Let_def loaded_panel_reachable [symmetric] by blast+
  from b loaded_panel_resolved
  have c: "step sample_host loaded_panel ResumeLoad = loaded_panel"
    and d: "loadPromise (run sample_host loaded_panel [CallShow True, ResumeLoad, ResumeShow])
              = Resolved"
    by blast+
  from a have e: "filter is_PathExists (calls loaded_panel) = [PathExists ''/ext/out/index.js'']"
    by (simp add: sample_options_def)
  from loaded_panel_resolved c d e show ?thesis
    by (intro conjI)
qed

subsection \<open>Disposal\<close>

text \<open>
  Claim C3: once the panel reference has been cleared, every public operation is a no-op
  and none throws. From a reachable state without a panel reference, any sequence of
  public operations (and of resumptions of \<^verbatim>\<open>show\<close>) changes nothing but the list of
  suspended calls of \<^verbatim>\<open>show\<close>: no call reaches a collaborator and nothing is thrown;
  \<^verbatim>\<open>isVisible\<close> and \<^verbatim>\<open>isActive\<close> answer false and the title is the empty string.
\<close>

theorem cleared_panel_operations_are_noops:
  assumes "s = run h (constructor h u p t opts) evs" and "panel s = None"
    and "\<forall>e\<in>set ops. is_operation e"
  shows "(\<exists>aw. run h s ops = s\<lparr>awaiting := aw\<rparr>) \<and>
         calls (run h s ops) = calls s \<and> raised (run h s ops) = [] \<and>
         panel (run h s ops) = None \<and>
         isVisible (run h s ops) = False \<and> isActive (run h s ops) = False \<and>
         get_title (run h s ops) = [] \<and>
         close s = s \<and> postMessage m s = s \<and> updateCwd new_cwd s = s \<and>
         set_title newTitle s = s"
proof -
  have co: "consistent h opts s"
    by (simp add: assms(1) consistent_reachable)
  have r: "loadPromise s = Resolved" and ra: "raised s = []"
    using co assms(2) by (auto simp: consistent_def split: promise.splits)
  from cleared_operation_run [OF co assms(2,3)] obtain aw
    where aw: "run h s ops = s\<lparr>awaiting := aw\<rparr>"
    by blast
  have first: "\<exists>aw. run h s ops = s\<lparr>awaiting := aw\<rparr>"
    using aw by blast
  have rest: "calls (run h s ops) = calls s \<and> raised (run h s ops) = [] \<and>
         panel (run h s ops) = None \<and>
         isVisible (run h s ops) = False \<and> isActive (run h s ops) = False \<and>
         get_title (run h s ops) = [] \<and>
         close s = s \<and> postMessage m s = s \<and> updateCwd new_cwd s = s \<and>
         set_title newTitle s = s"
    using assms(2) r ra
    by (simp add: aw isVisible_def isActive_def get_title_def close_def postMessage_def
                  updateCwd_def set_title_def show_call_def show_resume_def)
  from first rest show ?thesis
    by (rule conjI)
qed

theorem cleared_panel_operations_are_noops_witness:
  "panel closed_panel = None \<and>
   calls (run sample_host closed_panel
            [CallShow True, ResumeShow, CallClose, CallPostMessage (WebPanelMessage ''ping'' ''1''),
             CallSetTitle ''Plots'', CallUpdateCwd ''/tmp'', CallShow False, ResumeShow])
     = calls closed_panel \<and>
   isVisible closed_panel = False \<and> isActive closed_panel = False \<and>
   get_title closed_panel = []"
proof -
  have o: "\<forall>e\<in>set [CallShow True, ResumeShow, CallClose,
             CallPostMessage (WebPanelMessage ''ping'' ''1''),
             CallSetTitle ''Plots'', CallUpdateCwd ''/tmp'', CallShow False, ResumeShow].
           is_operation e"
    by simp
  from cleared_panel_operations_are_noops [OF closed_panel_reachable closed_panel_cleared o]
       cleared_panel_operations_are_noops [OF closed_panel_reachable closed_panel_cleared, of "[]"]
       closed_panel_cleared
  show ?thesis
    by simp
qed

text \<open>
  Claim C4: whenever the host reports the disposal, the panel is torn down once, the
  panel reference cleared and the listener disposed, whichever branch the load step
  took. The code does not do this on every path. The handler that clears the reference
  and disposes the listener ("Reset when the current panel is closed") is subscribed
  after the \<^verbatim>\<open>await\<close> and in the success branch only, while every public operation
  relies on the cleared reference. The theorem runs the code on two inputs: with a
  script missing the host reports the disposal after the load, and with every script on
  disk it reports it before the load has resumed. In both the reference stays set and
  the listener is not disposed.
\<close>

theorem teardown_skipped_without_handler:
  "\<not> disposed (run sample_host (constructor sample_host ''id-1'' None None missing_options)
                 [ResumeLoad]) \<and>
   panel (run sample_host (constructor sample_host ''id-1'' None None missing_options)
            [ResumeLoad, HostDidDispose]) \<noteq> None \<and>
   ListenerDispose \<notin> set (calls (run sample_host
      (constructor sample_host ''id-1'' None None missing_options) [ResumeLoad, HostDidDispose])) \<and>
   panel (run sample_host sample_panel [HostDidDispose, ResumeLoad]) \<noteq> None \<and>
   ListenerDispose \<notin> set (calls (run sample_host sample_panel [HostDidDispose, ResumeLoad]))"
  by (simp add: sample_panel_def constructor_def load_def load_resume_def Let_def
                missing_options_def sample_options_def sample_host_def fire_def)

text \<open>
  Where the handler is subscribed the teardown is as the claim says: when every script is
  on disk and the load step has resolved, the host's report of the disposal clears the
  panel reference and disposes the listener, once. The listener was not disposed before,
  the reference is never set again, and the listener is never disposed a second time.
\<close>

theorem teardown_after_successful_load:
  assumes "\<forall>x\<in>set (scripts opts). pathExists h x"
    and "s = run h (constructor h u p t opts) evs"
    and "loadPromise s = Resolved" and "\<not> disposed s"
  shows "panel (step h s HostDidDispose) = None \<and>
         calls (step h s HostDidDispose) = calls s @ [ListenerDispose] \<and>
         ListenerDispose \<notin> set (calls s) \<and>
         (\<forall>later. panel (run h (step h s HostDidDispose) later) = None \<and>
            count_list (calls (run h (step h s HostDidDispose) later)) ListenerDispose = 1)"
proof -
  have co: "consistent h opts s" and tr: "traced opts s"
    by (simp_all add: assms(2) consistent_reachable traced_reachable)
  have reg: "registered s = subscribed"
    using co assms(1,3) by (simp add: consistent_def list_all_set)
  have st: "step h s HostDidDispose = onDidDispose (s\<lparr>disposed := True\<rparr>)"
    using assms(4) reg by (simp add: fire_subscribed)
  have zero: "count_list (calls s) ListenerDispose = 0"
    using tr assms(4) by (simp add: traced_def)
  then have absent: "ListenerDispose \<notin> set (calls s)"
    by (simp add: count_list_0_iff)
  define s' where "s' = step h s HostDidDispose"
  have a: "panel s' = None" and b: "calls s' = calls s @ [ListenerDispose]"
    and d: "disposed s'"
    unfolding s'_def st by (simp_all add: onDidDispose_def)
  have co': "consistent h opts s'"
    unfolding s'_def by (rule consistent_step [OF co])
  have one: "count_list (calls s') ListenerDispose = 1"
    by (simp add: b zero)
  have l: "\<forall>later. panel (run h s' later) = None \<and>
            count_list (calls (run h s' later)) ListenerDispose = 1"
    using after_dispose_run [OF co' d a] one by simp
  from a b absent l show ?thesis
    unfolding s'_def by (intro conjI)
qed

theorem teardown_after_successful_load_sample:
  "panel (step sample_host loaded_panel HostDidDispose) = None \<and>
   calls (step sample_host loaded_panel HostDidDispose) = calls loaded_panel @ [ListenerDispose] \<and>
   count_list (calls (run sample_host (step sample_host loaded_panel HostDidDispose)
                        [CallShow True, ResumeShow, HostDidDispose, CallClose]))
     ListenerDispose = 1"
proof -
  have e: "\<forall>x\<in>set (scripts sample_options). pathExists sample_host x"
    by (simp add: sample_options_def sample_host_def)
  from teardown_after_successful_load
         [OF e loaded_panel_reachable loaded_panel_resolved loaded_panel_not_disposed]
  show ?thesis
    by blast
qed

subsection \<open>The panel identifier\<close>

text \<open>
  A step never changes the options. When \<^verbatim>\<open>startHttpServer\<close> is false, a step commutes
  with a change of the identifier.
\<close>

lemma foldl_commute:
  "(\<And>x. f (g x) = g (f x)) \<Longrightarrow> foldl (\<lambda>s' _. f s') (g s) xs = g (foldl (\<lambda>s' _. f s') s xs)"
  by (induction xs arbitrary: s) simp_all

lemma foldl_options:
  "(\<And>x. options (f x) = options x) \<Longrightarrow> options (foldl (\<lambda>s' _. f s') s xs) = options s"
  by (induction xs arbitrary: s) simp_all

lemma fire_ident:
  assumes "\<And>x. f (x\<lparr>ident := v\<rparr>) = (f x)\<lparr>ident := v\<rparr>"
  shows "fire ev f (s\<lparr>ident := v\<rparr>) = (fire ev f s)\<lparr>ident := v\<rparr>"
  unfolding fire_def using foldl_commute [of f "\<lambda>x. x\<lparr>ident := v\<rparr>", OF assms] by simp

lemma fire_options:
  assumes "\<And>x. options (f x) = options x"
  shows "options (fire ev f s) = options s"
  unfolding fire_def by (rule foldl_options [OF assms])

lemma step_options: "options (step h s e) = options s"
proof (cases e)
  case HostDidDispose
  then show ?thesis by (simp add: fire_options onDidDispose_def)
next
  case (HostDidReceiveMessage m)
  then show ?thesis by (simp add: fire_options onDidReceiveMessage_def)
next
  case (HostDidChangeViewState v a)
  then show ?thesis by (simp add: fire_options onDidChangeViewState_def)
qed (auto simp: operation_defs Let_def split: option.splits list.splits promise.splits)

lemma step_ident:
  assumes "\<not> startHttpServer (options s)"
  shows "step h (s\<lparr>ident := v\<rparr>) e = (step h s e)\<lparr>ident := v\<rparr>"
proof (cases e)
  case HostDidDispose
  have sw: "s\<lparr>ident := v\<rparr>\<lparr>disposed := True\<rparr> = s\<lparr>disposed := True\<rparr>\<lparr>ident := v\<rparr>"
    by simp
  have "fire OnDidDispose onDidDispose (s\<lparr>disposed := True\<rparr>\<lparr>ident := v\<rparr>) =
        (fire OnDidDispose onDidDispose (s\<lparr>disposed := True\<rparr>))\<lparr>ident := v\<rparr>"
    by (rule fire_ident) (simp add: onDidDispose_def)
  with HostDidDispose show ?thesis unfolding sw [symmetric] by simp
next
  case (HostDidReceiveMessage m)
  have "fire OnDidReceiveMessage (onDidReceiveMessage m) (s\<lparr>ident := v\<rparr>) =
        (fire OnDidReceiveMessage (onDidReceiveMessage m) s)\<lparr>ident := v\<rparr>"
    by (rule fire_ident) (simp add: onDidReceiveMessage_def)
  with HostDidReceiveMessage show ?thesis by simp
next
  case (HostDidChangeViewState vi ac)
  have sw: "s\<lparr>ident := v\<rparr>\<lparr>panel := map_option (\<lambda>p. p\<lparr>visible := vi, active := ac\<rparr>) (panel s)\<rparr> =
            s\<lparr>panel := map_option (\<lambda>p. p\<lparr>visible := vi, active := ac\<rparr>) (panel s)\<rparr>\<lparr>ident := v\<rparr>"
    by simp
  have "fire OnDidChangeViewState onDidChangeViewState
          (s\<lparr>panel := map_option (\<lambda>p. p\<lparr>visible := vi, active := ac\<rparr>) (panel s)\<rparr>\<lparr>ident := v\<rparr>) =
        (fire OnDidChangeViewState onDidChangeViewState
          (s\<lparr>panel := map_option (\<lambda>p. p\<lparr>visible := vi, active := ac\<rparr>) (panel s)\<rparr>))\<lparr>ident := v\<rparr>"
    by (rule fire_ident) (simp add: onDidChangeViewState_def)
  with HostDidChangeViewState show ?thesis unfolding sw [symmetric] by simp
qed (use assms in \<open>auto simp: operation_defs Let_def split: option.splits list.splits promise.splits\<close>)

lemma run_ident:
  "\<not> startHttpServer (options s) \<Longrightarrow> run h (s\<lparr>ident := v\<rparr>) evs = (run h s evs)\<lparr>ident := v\<rparr>"
proof (induction evs arbitrary: s)
  case Nil
  show ?case by simp
next
  case (Cons e evs)
  then show ?case
    by (simp add: step_ident step_options)
qed

lemma constructor_ident:
  "constructor h v p t opts = (constructor h u p t opts)\<lparr>ident := v\<rparr>"
  by (simp add: constructor_def load_def Let_def)

text \<open>The place of the identifier in the server page.\<close>

lemma id_inside_cons:
  assumes "\<exists>pre post. \<forall>i. concat (f i) = pre @ mid i @ post"
  shows "\<exists>pre post. \<forall>i. concat (x # f i) = pre @ mid i @ post"
proof -
  from assms obtain pre post where "\<forall>i. concat (f i) = pre @ mid i @ post"
    by blast
  then have "\<forall>i. concat (x # f i) = (x @ pre) @ mid i @ post"
    by simp
  then show ?thesis
    by blast
qed

lemma id_inside_iframe:
  \<open>\<exists>pre post. \<forall>i.
     concat (''                <iframe id='hostframe' src="http://localhost:'' #
             number_text RemappedPort # ''/'' # i # ''?scripts='' # rest)
     = pre @ (''http://localhost:9890/'' @ i @ ''?scripts='') @ post\<close>
proof -
  have n: "number_text RemappedPort = ''9890''"
    by (simp add: RemappedPort_def)
  have \<open>\<forall>i.
     concat (''                <iframe id='hostframe' src="http://localhost:'' #
             number_text RemappedPort # ''/'' # i # ''?scripts='' # rest)
     = ''                <iframe id='hostframe' src="'' @
       (''http://localhost:9890/'' @ i @ ''?scripts='') @ concat rest\<close>
    unfolding n by simp
  then show ?thesis
    by blast
qed

lemma server_page_id:
  "\<exists>pre post. \<forall>i. generateServerReactHtml h i t opts =
      pre @ (''http://localhost:9890/'' @ i @ ''?scripts='') @ post"
  unfolding generateServerReactHtml_def Let_def
  by (rule id_inside_iframe | rule id_inside_cons)+

text \<open>
  Every step does to a state without its page texts what it does to the state itself, up
  to the page texts: no test and no argument of a call reads the identifier or a page.
\<close>

lemma without_page_text_idem [simp]: "without_page_text (without_page_text c) = without_page_text c"
  by (cases c) simp_all

lemma without_page_idem [simp]: "without_page (without_page s) = without_page s"
  by (simp add: without_page_def option.map_comp comp_def)

lemma without_page_fields [simp]:
  "loadPromise (without_page s) = loadPromise s"
  "registered (without_page s) = registered s"
  "disposed (without_page s) = disposed s"
  "awaiting (without_page s) = awaiting s"
  "options (without_page s) = options s"
  "token (without_page s) = token s"
  "raised (without_page s) = raised s"
  "port (without_page s) = port s"
  "panel (without_page s) = map_option (\<lambda>p. p\<lparr>html := []\<rparr>) (panel s)"
  "calls (without_page s) = map without_page_text (calls s)"
  by (simp_all add: without_page_def)

lemma foldl_without_page:
  assumes "\<And>x. without_page (f x) = without_page (f (without_page x))"
  shows "without_page (foldl (\<lambda>s' _. f s') s xs) =
         without_page (foldl (\<lambda>s' _. f s') (without_page s) xs)"
proof (induction xs arbitrary: s)
  case Nil
  show ?case by simp
next
  case (Cons x xs)
  have "without_page (foldl (\<lambda>s' _. f s') (f s) xs) =
        without_page (foldl (\<lambda>s' _. f s') (without_page (f s)) xs)"
    by (rule Cons.IH)
  also have "\<dots> = without_page (foldl (\<lambda>s' _. f s') (without_page (f (without_page s))) xs)"
    by (simp only: assms [of s])
  also have "\<dots> = without_page (foldl (\<lambda>s' _. f s') (f (without_page s)) xs)"
    by (rule Cons.IH [symmetric])
  finally show ?case by simp
qed

lemma fire_without_page:
  assumes "\<And>x. without_page (f x) = without_page (f (without_page x))"
  shows "without_page (fire ev f s) = without_page (fire ev f (without_page s))"
  unfolding fire_def using foldl_without_page [of f s, OF assms] by simp

lemma step_without_page:
  "without_page (step h s e) = without_page (step h (without_page s) e)"
proof (cases e)
  case HostDidDispose
  have sw: "(without_page s)\<lparr>disposed := True\<rparr> = without_page (s\<lparr>disposed := True\<rparr>)"
    by (simp add: without_page_def)
  have "without_page (fire OnDidDispose onDidDispose (s\<lparr>disposed := True\<rparr>)) =
        without_page (fire OnDidDispose onDidDispose (without_page (s\<lparr>disposed := True\<rparr>)))"
    by (rule fire_without_page) (simp add: onDidDispose_def without_page_def option.map_comp comp_def)
  with HostDidDispose show ?thesis by (simp add: sw)
next
  case (HostDidReceiveMessage m)
  have "without_page (fire OnDidReceiveMessage (onDidReceiveMessage m) s) =
        without_page (fire OnDidReceiveMessage (onDidReceiveMessage m) (without_page s))"
    by (rule fire_without_page) (simp add: onDidReceiveMessage_def without_page_def option.map_comp comp_def)
  with HostDidReceiveMessage show ?thesis by simp
next
  case (HostDidChangeViewState vi ac)
  define g where "g = (\<lambda>p::WebviewPanel. p\<lparr>visible := vi, active := ac\<rparr>)"
  have sw: "(without_page s)\<lparr>panel := map_option g (map_option (\<lambda>p. p\<lparr>html := []\<rparr>) (panel s))\<rparr> =
            without_page (s\<lparr>panel := map_option g (panel s)\<rparr>)"
    by (cases "panel s") (simp_all add: without_page_def g_def)
  have "without_page (fire OnDidChangeViewState onDidChangeViewState (s\<lparr>panel := map_option g (panel s)\<rparr>)) =
        without_page (fire OnDidChangeViewState onDidChangeViewState
          (without_page (s\<lparr>panel := map_option g (panel s)\<rparr>)))"
    by (rule fire_without_page) (simp add: onDidChangeViewState_def without_page_def option.map_comp comp_def)
  with HostDidChangeViewState show ?thesis
    unfolding g_def [symmetric] step.simps g_def [symmetric] by (simp add: sw g_def [symmetric])
next
  case ResumeLoad
  then show ?thesis
    by (cases "panel s")
       (simp_all add: load_resume_def Let_def without_page_def option.map_comp comp_def)
next
  case ResumeShow
  then show ?thesis
    by (cases "panel s"; cases "awaiting s"; cases "loadPromise s")
       (simp_all add: show_resume_def without_page_def option.map_comp comp_def)
next
  case (CallSetTitle x)
  then show ?thesis
    by (cases "panel s") (simp_all add: set_title_def without_page_def)
next
  case CallClose
  then show ?thesis
    by (cases "panel s") (simp_all add: close_def without_page_def option.map_comp comp_def)
next
  case (CallPostMessage m)
  then show ?thesis
    by (cases "panel s") (simp_all add: postMessage_def without_page_def option.map_comp comp_def)
next
  case (CallShow b)
  then show ?thesis
    by (simp add: show_call_def without_page_def option.map_comp comp_def)
next
  case (CallUpdateCwd c)
  then show ?thesis
    by (simp add: updateCwd_def)
qed

lemma run_without_page:
  "without_page (run h s evs) = without_page (run h (without_page s) evs)"
proof (induction evs arbitrary: s)
  case Nil
  show ?case by simp
next
  case (Cons e evs)
  have "without_page (run h (step h s e) evs) =
        without_page (run h (without_page (step h s e)) evs)"
    by (rule Cons.IH)
  also have "\<dots> = without_page (run h (without_page (step h (without_page s) e)) evs)"
    by (simp only: step_without_page [of h s e])
  also have "\<dots> = without_page (run h (step h (without_page s) e) evs)"
    by (rule Cons.IH [symmetric])
  finally show ?case by simp
qed

lemma without_page_ident [simp]: "without_page (s\<lparr>ident := v\<rparr>) = without_page s"
  by (simp add: without_page_def)

lemma runs_without_page:
  "without_page (run h (constructor h v p t opts) evs) =
   without_page (run h (constructor h u p t opts) evs)"
proof -
  have "without_page (constructor h v p t opts) = without_page (constructor h u p t opts)"
    by (simp add: constructor_ident [of h v p t opts u])
  then show ?thesis
    using run_without_page [of h "constructor h v p t opts" evs]
          run_without_page [of h "constructor h u p t opts" evs]
    by simp
qed


text \<open>The one page of a run, and how the pages of two identifiers compare.\<close>

lemma paged_constructor:
  "paged h u t opts (html (the (panel (constructor h u p t opts)))) (constructor h u p t opts)"
  by (simp add: paged_def constructor_def load_def Let_def)

lemma paged_step:
  assumes "consistent h opts s" and "paged h u t opts first s"
  shows "paged h u t opts first (step h s e)"
proof (cases e)
  case ResumeLoad
  with assms show ?thesis
    by (auto simp: paged_def consistent_def load_resume_def assigned_page_def every_exists Let_def
             split: promise.splits option.splits)
next
  case ResumeShow
  with assms show ?thesis
    by (auto simp: paged_def show_resume_def split: promise.splits option.splits list.splits)
next
  case HostDidDispose
  with assms consistent_registered [OF assms(1)] show ?thesis
    by (auto simp: paged_def fire_none fire_subscribed onDidDispose_def split: option.splits)
next
  case (HostDidReceiveMessage m)
  with assms consistent_registered [OF assms(1)] show ?thesis
    by (auto simp: paged_def fire_none fire_subscribed onDidReceiveMessage_def
             split: option.splits)
next
  case (HostDidChangeViewState vi ac)
  with assms consistent_registered [OF assms(1)] show ?thesis
    by (auto simp: paged_def fire_none fire_subscribed onDidChangeViewState_def
             split: option.splits)
qed (use assms in \<open>auto simp: paged_def operation_defs split: option.splits\<close>)

lemma paged_run:
  "consistent h opts s \<Longrightarrow> paged h u t opts first s \<Longrightarrow> paged h u t opts first (run h s evs)"
  by (induction evs rule: rev_induct) (simp_all add: paged_step consistent_run)

lemma paged_reachable:
  "paged h u t opts (html (the (panel (constructor h u p t opts))))
     (run h (constructor h u p t opts) evs)"
  by (rule paged_run [OF consistent_constructor paged_constructor])

lemma first_page_ident:
  "html (the (panel (constructor h v p t opts))) = html (the (panel (constructor h u p t opts)))"
  by (simp add: constructor_def load_def Let_def)

lemma assigned_page_cases:
  "assigned_page h v t opts = assigned_page h u t opts \<or>
   startHttpServer opts \<and>
   assigned_page h u t opts = generateServerReactHtml h u t opts \<and>
   assigned_page h v t opts = generateServerReactHtml h v t opts"
  by (simp add: assigned_page_def)

lemma runs_pages:
  fixes h u v p t opts evs
  defines "s \<equiv> run h (constructor h u p t opts) evs"
    and "s' \<equiv> run h (constructor h v p t opts) evs"
  shows "(filter is_SetHtml (calls s') = filter is_SetHtml (calls s) \<or>
          startHttpServer opts \<and>
          filter is_SetHtml (calls s) = [SetHtml (generateServerReactHtml h u t opts)] \<and>
          filter is_SetHtml (calls s') = [SetHtml (generateServerReactHtml h v t opts)]) \<and>
         (map_option html (panel s') = map_option html (panel s) \<or>
          startHttpServer opts \<and>
          map_option html (panel s) = Some (generateServerReactHtml h u t opts) \<and>
          map_option html (panel s') = Some (generateServerReactHtml h v t opts))"
proof -
  have w: "without_page s' = without_page s"
    unfolding s_def s'_def by (rule runs_without_page)
  have lp: "loadPromise s' = loadPromise s"
    using arg_cong [OF w, of loadPromise] by simp
  have pn: "(panel s' = None) = (panel s = None)"
    using arg_cong [OF w, of panel] by (cases "panel s"; cases "panel s'") simp_all
  have pu: "paged h u t opts (html (the (panel (constructor h u p t opts)))) s"
    unfolding s_def by (rule paged_reachable)
  have pv: "paged h v t opts (html (the (panel (constructor h u p t opts)))) s'"
    unfolding s'_def using paged_reachable [of h v t opts p evs] by (simp add: first_page_ident [of h v p t opts u])
  show ?thesis
  proof (cases "loadPromise s = Pending")
    case True
    with pu pv lp pn show ?thesis
      by (cases "panel s"; cases "panel s'") (auto simp: paged_def)
  next
    case False
    with pu pv lp pn assigned_page_cases [of h v t opts u] show ?thesis
      by (cases "panel s"; cases "panel s'") (auto simp: paged_def)
  qed
qed


text \<open>
  Claim C8: the generated identifier reaches the output in serve mode only, and there
  only as the path of the loopback address. Take two panels that differ in their
  identifier alone, under any sequence of events. With \<^verbatim>\<open>startHttpServer\<close> false they go
  through the same states apart from the identifier field: the same calls, the same
  page. In either mode their states agree once the identifier and the page texts are
  emptied, so every call is the same in kind, order and arguments but for the text of
  the page; the page texts are the same too, unless the mode is serve mode and the pages
  are the server pages of the two identifiers. The server page is a text before, the
  loopback address with the identifier as its path, and a text after, where neither
  text depends on the identifier.
\<close>

theorem id_reaches_only_the_iframe_path:
  "(\<not> startHttpServer opts \<longrightarrow>
      run h (constructor h v p t opts) evs = (run h (constructor h u p t opts) evs)\<lparr>ident := v\<rparr> \<and>
      calls (run h (constructor h v p t opts) evs) = calls (run h (constructor h u p t opts) evs) \<and>
      panel (run h (constructor h v p t opts) evs) = panel (run h (constructor h u p t opts) evs)) \<and>
   (\<exists>pre post. \<forall>i. generateServerReactHtml h i t opts =
      pre @ (''http://localhost:9890/'' @ i @ ''?scripts='') @ post) \<and>
   without_page (run h (constructor h v p t opts) evs) =
     without_page (run h (constructor h u p t opts) evs) \<and>
   (filter is_SetHtml (calls (run h (constructor h v p t opts) evs)) =
      filter is_SetHtml (calls (run h (constructor h u p t opts) evs)) \<or>
    startHttpServer opts \<and>
    filter is_SetHtml (calls (run h (constructor h u p t opts) evs)) =
      [SetHtml (generateServerReactHtml h u t opts)] \<and>
    filter is_SetHtml (calls (run h (constructor h v p t opts) evs)) =
      [SetHtml (generateServerReactHtml h v t opts)]) \<and>
   (map_option html (panel (run h (constructor h v p t opts) evs)) =
      map_option html (panel (run h (constructor h u p t opts) evs)) \<or>
    startHttpServer opts \<and>
    map_option html (panel (run h (constructor h u p t opts) evs)) =
      Some (generateServerReactHtml h u t opts) \<and>
    map_option html (panel (run h (constructor h v p t opts) evs)) =
      Some (generateServerReactHtml h v t opts))"
proof -
  have "run h (constructor h v p t opts) evs = (run h (constructor h u p t opts) evs)\<lparr>ident := v\<rparr>"
    if "\<not> startHttpServer opts"
  proof -
    have "\<not> startHttpServer (options (constructor h u p t opts))"
      using that by (simp add: constructor_fields)
    from run_ident [OF this, of h v evs] show ?thesis
      by (simp add: constructor_ident [of h v p t opts u])
  qed
  then have a: "\<not> startHttpServer opts \<longrightarrow>
      run h (constructor h v p t opts) evs = (run h (constructor h u p t opts) evs)\<lparr>ident := v\<rparr> \<and>
      calls (run h (constructor h v p t opts) evs) = calls (run h (constructor h u p t opts) evs) \<and>
      panel (run h (constructor h v p t opts) evs) = panel (run h (constructor h u p t opts) evs)"
    by simp
  note b = server_page_id [of h t opts]
  note c = runs_without_page [of h v p t opts evs u]
  note d = runs_pages [of h v p t opts evs u]
  from a b c d show ?thesis
    by (intro conjI) blast+
qed

theorem id_reaches_only_the_iframe_path_witness:
  "calls (run sample_host (constructor sample_host ''id-2'' None None sample_options)
            [CallShow True, ResumeLoad, ResumeShow]) =
   calls (run sample_host (constructor sample_host ''id-1'' None None sample_options)
            [CallShow True, ResumeLoad, ResumeShow]) \<and>
   ident (run sample_host (constructor sample_host ''id-2'' None None sample_options)
            [CallShow True, ResumeLoad, ResumeShow]) = ''id-2'' \<and>
   without_page (run sample_host
      (constructor sample_host ''id-2'' (Some 8000) (Some ''secret'') serve_options)
      [ResumeLoad, CallSetTitle ''Plots'', CallShow True, ResumeShow]) =
   without_page (run sample_host
      (constructor sample_host ''id-1'' (Some 8000) (Some ''secret'') serve_options)
      [ResumeLoad, CallSetTitle ''Plots'', CallShow True, ResumeShow]) \<and>
   filter is_SetHtml (calls (run sample_host
      (constructor sample_host ''id-2'' (Some 8000) (Some ''secret'') serve_options)
      [ResumeLoad, CallSetTitle ''Plots'', CallShow True, ResumeShow])) =
   [SetHtml (generateServerReactHtml sample_host ''id-2'' (Some ''secret'') serve_options)]"
proof -
  define r where "r = run sample_host (constructor sample_host ''id-1'' None None sample_options)
            [CallShow True, ResumeLoad, ResumeShow]"
  have l: "\<not> startHttpServer sample_options"
    by (simp add: sample_options_def)
  from id_reaches_only_the_iframe_path
         [of sample_options sample_host "''id-2''" None None
             "[CallShow True, ResumeLoad, ResumeShow]" "''id-1''"] l
  have e: "run sample_host (constructor sample_host ''id-2'' None None sample_options)
            [CallShow True, ResumeLoad, ResumeShow] = r\<lparr>ident := ''id-2''\<rparr>"
    unfolding r_def by blast
  have local: "calls (run sample_host (constructor sample_host ''id-2'' None None sample_options)
            [CallShow True, ResumeLoad, ResumeShow]) = calls r \<and>
          ident (run sample_host (constructor sample_host ''id-2'' None None sample_options)
            [CallShow True, ResumeLoad, ResumeShow]) = ''id-2''"
    unfolding e by simp
  from id_reaches_only_the_iframe_path
         [of serve_options sample_host "''id-2''" "Some 8000" "Some ''secret''"
             "[ResumeLoad, CallSetTitle ''Plots'', CallShow True, ResumeShow]" "''id-1''"]
  have serve: "without_page (run sample_host
      (constructor sample_host ''id-2'' (Some 8000) (Some ''secret'') serve_options)
      [ResumeLoad, CallSetTitle ''Plots'', CallShow True, ResumeShow]) =
   without_page (run sample_host
      (constructor sample_host ''id-1'' (Some 8000) (Some ''secret'') serve_options)
      [ResumeLoad, CallSetTitle ''Plots'', CallShow True, ResumeShow])"
    by blast
  have pe: "list_all (pathExists sample_host) (scripts serve_options)"
    by (simp add: serve_options_def sample_options_def sample_host_def)
  have pg: "paged sample_host ''id-2'' (Some ''secret'') serve_options
      (html (the (panel (constructor sample_host ''id-2'' (Some 8000) (Some ''secret'') serve_options))))
      (run sample_host (constructor sample_host ''id-2'' (Some 8000) (Some ''secret'') serve_options)
         [ResumeLoad, CallSetTitle ''Plots'', CallShow True, ResumeShow])"
    by (rule paged_reachable)
  obtain pn where pn: "panel (constructor sample_host ''id-2'' (Some 8000) (Some ''secret'')
      serve_options) = Some pn"
    using constructor_fields(1) [of sample_host "''id-2''" "Some 8000" "Some ''secret''" serve_options]
    by auto
  have c0: "consistent sample_host serve_options
      (step sample_host
         (constructor sample_host ''id-2'' (Some 8000) (Some ''secret'') serve_options) ResumeLoad)"
    by (rule consistent_step [OF consistent_constructor])
  have r0: "loadPromise (step sample_host
      (constructor sample_host ''id-2'' (Some 8000) (Some ''secret'') serve_options) ResumeLoad)
      = Resolved"
    by (simp add: constructor_fields pn load_resume_def Let_def)
  have lp: "loadPromise (run sample_host
      (constructor sample_host ''id-2'' (Some 8000) (Some ''secret'') serve_options)
      [ResumeLoad, CallSetTitle ''Plots'', CallShow True, ResumeShow]) = Resolved"
    using resolved_run [OF c0 r0, of "[CallSetTitle ''Plots'', CallShow True, ResumeShow]"]
    by (simp only: run_Cons)
  have page: "filter is_SetHtml (calls (run sample_host
      (constructor sample_host ''id-2'' (Some 8000) (Some ''secret'') serve_options)
      [ResumeLoad, CallSetTitle ''Plots'', CallShow True, ResumeShow])) =
   [SetHtml (generateServerReactHtml sample_host ''id-2'' (Some ''secret'') serve_options)]"
    using pg lp pe by (simp add: paged_def assigned_page_def serve_options_def)
  from local serve page show ?thesis
    unfolding r_def by (intro conjI) blast+
qed


end
